theory Spec2Isabelle
  imports Complex_Main "HOL-Library.Word" "HOL-Library.Sublist"
begin

section \<open>JavaScript strings\<close>

text \<open>A JavaScript string is a sequence of UTF-16 code units; \<open>length\<close> counts code
  units. \<open>js\<close> embeds an ASCII literal.\<close>

type_synonym js_string = "16 word list"

definition js :: "string \<Rightarrow> js_string" where
  "js s = map of_char s"

text \<open>The code units matched by \<open>\s\<close> and stripped by \<open>String.prototype.trim\<close>:
  WhiteSpace and LineTerminator of ECMAScript.\<close>

definition is_white_space :: "16 word \<Rightarrow> bool" where
  "is_white_space c \<longleftrightarrow>
     c = 0x09 \<or> c = 0x0A \<or> c = 0x0B \<or> c = 0x0C \<or> c = 0x0D \<or> c = 0x20 \<or> c = 0xA0 \<or>
     c = 0x1680 \<or> (0x2000 \<le> c \<and> c \<le> 0x200A) \<or> c = 0x2028 \<or> c = 0x2029 \<or>
     c = 0x202F \<or> c = 0x205F \<or> c = 0x3000 \<or> c = 0xFEFF"

definition trim :: "js_string \<Rightarrow> js_string" where
  "trim s = rev (dropWhile is_white_space (rev (dropWhile is_white_space s)))"

section \<open>Regular expressions\<close>

datatype regex =
    Never
  | Eps
  | Class "16 word \<Rightarrow> bool"
  | Alt regex regex
  | Cat regex regex
  | Star regex

definition one_or_more :: "regex \<Rightarrow> regex" where
  "one_or_more r = Cat r (Star r)"

fun nullable :: "regex \<Rightarrow> bool" where
  "nullable Never = False"
| "nullable Eps = True"
| "nullable (Class p) = False"
| "nullable (Alt r s) = (nullable r \<or> nullable s)"
| "nullable (Cat r s) = (nullable r \<and> nullable s)"
| "nullable (Star r) = True"

fun deriv :: "16 word \<Rightarrow> regex \<Rightarrow> regex" where
  "deriv c Never = Never"
| "deriv c Eps = Never"
| "deriv c (Class p) = (if p c then Eps else Never)"
| "deriv c (Alt r s) = Alt (deriv c r) (deriv c s)"
| "deriv c (Cat r s) =
     (if nullable r then Alt (Cat (deriv c r) s) (deriv c s) else Cat (deriv c r) s)"
| "deriv c (Star r) = Cat (deriv c r) (Star r)"

text \<open>\<open>regex.test(s)\<close> for a pattern anchored by \<open>^\<close> and \<open>$\<close>: the whole string matches.\<close>

fun regex_test :: "regex \<Rightarrow> js_string \<Rightarrow> bool" where
  "regex_test r [] = nullable r"
| "regex_test r (c # cs) = regex_test (deriv c r) cs"

text \<open>The class \<open>[^\s@]\<close> and the pattern \<open>/^[^\s@]+@[^\s@]+\.[^\s@]+$/\<close>.\<close>

definition not_space_at :: "16 word \<Rightarrow> bool" where
  "not_space_at c \<longleftrightarrow> \<not> is_white_space c \<and> c \<noteq> 0x40"

definition email_regex :: regex where
  "email_regex =
     Cat (one_or_more (Class not_space_at))
      (Cat (Class (\<lambda>c. c = 0x40))
        (Cat (one_or_more (Class not_space_at))
          (Cat (Class (\<lambda>c. c = 0x2E))
            (one_or_more (Class not_space_at)))))"




section \<open>Numbers\<close>

datatype number = NaN | NegInfinity | Finite real | PosInfinity

text \<open>\<open>n >= m\<close> where \<open>n\<close> is the length of a string and \<open>m\<close> a number: false when
  \<open>m\<close> is NaN.\<close>

fun length_ge :: "nat \<Rightarrow> number \<Rightarrow> bool" where
  "length_ge n NaN = False"
| "length_ge n NegInfinity = True"
| "length_ge n (Finite r) = (r \<le> real n)"
| "length_ge n PosInfinity = False"

text \<open>ToNumber of ECMAScript is a parameter of the model (\<open>T\<close> below). At a string of
  decimal digits that denotes an integer below \<open>2^53\<close> it is the integer denoted, and 0 at
  the empty string; \<open>ToNumber_digits\<close> is that fragment and answers NaN everywhere else,
  where ECMAScript may answer otherwise. It instantiates the parameter in the examples, at
  digit strings only.\<close>

definition ToNumber_digits :: "js_string \<Rightarrow> number" where
  "ToNumber_digits s =
     (if list_all (\<lambda>c. 0x30 \<le> c \<and> c \<le> 0x39) s
      then Finite (real (foldl (\<lambda>n c. 10 * n + unat (c - 0x30)) 0 s))
      else NaN)"

section \<open>Class lists\<close>

text \<open>A \<open>DOMTokenList\<close>: an ordered set of class names.\<close>

definition classList_contains :: "string \<Rightarrow> string list \<Rightarrow> bool" where
  "classList_contains c cs \<longleftrightarrow> c \<in> set cs"

definition classList_add :: "string \<Rightarrow> string list \<Rightarrow> string list" where
  "classList_add c cs = (if c \<in> set cs then cs else cs @ [c])"

definition classList_remove :: "string \<Rightarrow> string list \<Rightarrow> string list" where
  "classList_remove c cs = removeAll c cs"

definition classList_toggle :: "string \<Rightarrow> string list \<Rightarrow> string list" where
  "classList_toggle c cs = (if c \<in> set cs then removeAll c cs else cs @ [c])"

definition classList_toggle_force :: "string \<Rightarrow> bool \<Rightarrow> string list \<Rightarrow> string list" where
  "classList_toggle_force c force cs = (if force then classList_add c cs else classList_remove c cs)"

section \<open>Exceptions\<close>

text \<open>A handler either returns with the state it leaves, or throws: the error comes with
  the state as the handler left it when it threw.\<close>

datatype js_error = TypeError | SyntaxError

section \<open>Form fields and the elements around them\<close>

record field =
  field_value :: js_string
  field_type :: js_string
  dataset_minLength :: "js_string option"
  field_classList :: "string list"
  field_name :: "js_string option"

text \<open>The element children of a field's parent, in document order: a form field (by its
  index in the form), an element carrying the class \<open>error-message\<close> with its text content,
  or any other element with its own children. The elements that match \<open>.error-message\<close> are
  thus told apart by their constructor: a field does not carry that class, and an
  error-message element, like the \<open>span\<close> the script creates, has text only.\<close>

datatype node = FieldEl nat | Message js_string | Elem "node list"

fun has_message :: "node \<Rightarrow> bool" and has_message_list :: "node list \<Rightarrow> bool" where
  "has_message (FieldEl i) = False"
| "has_message (Message t) = True"
| "has_message (Elem ks) = has_message_list ks"
| "has_message_list [] = False"
| "has_message_list (k # ks) = (has_message k \<or> has_message_list ks)"

text \<open>\<open>const errorEl = parent.querySelector('.error-message'); if (errorEl) errorEl.remove()\<close>:
  the first match in document order among the descendants is removed.\<close>

fun remove_error :: "node list \<Rightarrow> node list" where
  "remove_error [] = []"
| "remove_error (FieldEl i # ns) = FieldEl i # remove_error ns"
| "remove_error (Message t # ns) = ns"
| "remove_error (Elem ks # ns) =
     (if has_message_list ks then Elem (remove_error ks) # ns else Elem ks # remove_error ns)"

text \<open>\<open>field.dataset.minLength || 0\<close>: the attribute's string when it is present and not
  empty, the number 0 otherwise.\<close>

datatype min_length = MinZero | MinString js_string

definition minLength_of :: "field \<Rightarrow> min_length" where
  "minLength_of f =
     (case dataset_minLength f of
        None \<Rightarrow> MinZero
      | Some s \<Rightarrow> if s \<noteq> [] then MinString s else MinZero)"

text \<open>\<open>value.length >= minLength\<close> and the text of \<open>${minLength}\<close>.\<close>

fun length_ge_min :: "(js_string \<Rightarrow> number) \<Rightarrow> nat \<Rightarrow> min_length \<Rightarrow> bool" where
  "length_ge_min T n MinZero = length_ge n (Finite 0)"
| "length_ge_min T n (MinString s) = length_ge n (T s)"

fun min_length_text :: "min_length \<Rightarrow> js_string" where
  "min_length_text MinZero = js ''0''"
| "min_length_text (MinString s) = s"

text \<open>The \<open>switch (fieldType)\<close> of \<open>validateField\<close>: validity and error text.\<close>

definition validation_rule :: "(js_string \<Rightarrow> number) \<Rightarrow> field \<Rightarrow> bool \<times> js_string" where
  "validation_rule T f =
     (let v = trim (field_value f);
          fieldType = field_type f;
          minLength = minLength_of f
      in if fieldType = js ''email''
         then (regex_test email_regex v, js ''Please enter a valid email'')
         else (length_ge_min T (length v) minLength,
               js ''Minimum '' @ min_length_text minLength @ js '' characters required''))"

text \<open>\<open>validateField(field)\<close>, on the field and the children of \<open>field.parentElement\<close>;
  returns \<open>isValid\<close> with the field and the children as updated.\<close>

definition validateField ::
  "(js_string \<Rightarrow> number) \<Rightarrow> field \<Rightarrow> node list \<Rightarrow> bool \<times> field \<times> node list" where
  "validateField T f ks =
     (let f1 = f\<lparr>field_classList := classList_remove ''error'' (field_classList f)\<rparr>;
          ks1 = remove_error ks;
          (isValid, errorMessage) = validation_rule T f
      in if \<not> isValid
         then (isValid,
               f1\<lparr>field_classList := classList_add ''error'' (field_classList f1)\<rparr>,
               ks1 @ [Message errorMessage])
         else (isValid, f1, ks1))"



text \<open>The minimum configured for a field as the specification words it: the number
  written in \<open>data-min-length\<close>, 0 when the attribute is absent.\<close>

definition configured_minimum :: "(js_string \<Rightarrow> number) \<Rightarrow> field \<Rightarrow> number" where
  "configured_minimum T f = (case dataset_minLength f of None \<Rightarrow> Finite 0 | Some s \<Rightarrow> T s)"

text \<open>An \<open>input\<close> element with the given type, value and \<open>data-min-length\<close>, no class
  and no name, for the examples.\<close>

definition input_element :: "js_string \<Rightarrow> js_string \<Rightarrow> js_string option \<Rightarrow> field" where
  "input_element ty v ml =
     \<lparr>field_value = v, field_type = ty, dataset_minLength = ml, field_classList = [],
      field_name = None\<rparr>"

section \<open>Mobile menu\<close>

text \<open>The state the delegated click listener of \<open>setupMobileMenu\<close> reads and writes: the
  closure variable \<open>isMenuOpen\<close>, the class list of \<open>elements.navList\<close> (\<open>None\<close> when the page
  has no \<open>.nav__list\<close>), the class list of the created button and
  \<open>document.body.style.overflow\<close>.\<close>

record menu =
  isMenuOpen :: bool
  navList :: "string list option"
  mobileBtn :: "string list"
  body_overflow :: js_string

text \<open>The listener. \<open>closest\<close> is the class list of the element found by
  \<open>e.target.closest('.nav__mobile-btn, .nav__link')\<close>, if any; \<open>innerWidth\<close> is
  \<open>window.innerWidth\<close>.\<close>

definition nav_click :: "string list option \<Rightarrow> int \<Rightarrow> menu \<Rightarrow> js_error \<times> menu + menu" where
  "nav_click closest innerWidth m =
     (case closest of
        None \<Rightarrow> Inr m
      | Some target \<Rightarrow>
          if classList_contains ''nav__mobile-btn'' target then
            (let m1 = m\<lparr>isMenuOpen := \<not> isMenuOpen m\<rparr> in
             case navList m1 of
               None \<Rightarrow> Inl (TypeError, m1)
             | Some nl \<Rightarrow>
                 Inr (m1\<lparr>navList := Some (classList_toggle ''nav__list--active'' nl),
                          mobileBtn := classList_toggle ''nav__mobile-btn--active'' (mobileBtn m1),
                          body_overflow := (if isMenuOpen m1 then js ''hidden'' else [])\<rparr>))
          else if classList_contains ''nav__link'' target \<and> innerWidth < 768 then
            (case navList m of
               None \<Rightarrow> Inl (TypeError, m)
             | Some nl \<Rightarrow>
                 Inr (m\<lparr>navList := Some (classList_remove ''nav__list--active'' nl),
                         mobileBtn := classList_remove ''nav__mobile-btn--active'' (mobileBtn m),
                         body_overflow := [],
                         isMenuOpen := False\<rparr>))
          else Inr m)"

section \<open>Smooth scroll\<close>

text \<open>What a click on a link observes and changes: whether the event's default was
  prevented, and the calls of \<open>window.scrollTo\<close> (\<open>top\<close> and \<open>behavior\<close>).\<close>

record click =
  defaultPrevented :: bool
  scrollTo_calls :: "(int \<times> string) list"

text \<open>The click listener of a link. \<open>headerHeight\<close> was read at setup; \<open>querySelector\<close> is
  \<open>document.querySelector\<close> on the page: it throws on a string that is not a selector,
  returns null, or returns an element, given by its \<open>offsetTop\<close>; \<open>href\<close> is
  \<open>link.getAttribute('href')\<close>, null when the link has no such attribute.\<close>

definition smooth_scroll_click ::
  "int \<Rightarrow> (js_string \<Rightarrow> js_error + int option) \<Rightarrow> js_string option \<Rightarrow> click
     \<Rightarrow> js_error \<times> click + click" where
  "smooth_scroll_click headerHeight querySelector href e =
     (case href of
        None \<Rightarrow> Inl (TypeError, e)
      | Some h \<Rightarrow>
          if prefix (js ''#'') h then
            (let e1 = e\<lparr>defaultPrevented := True\<rparr> in
             case querySelector h of
               Inl err \<Rightarrow> Inl (err, e1)
             | Inr None \<Rightarrow> Inr e1
             | Inr (Some offsetTop) \<Rightarrow>
                 Inr (e1\<lparr>scrollTo_calls :=
                          scrollTo_calls e1 @ [(offsetTop - headerHeight, ''smooth'')]\<rparr>))
          else Inr e)"

text \<open>\<open>document.querySelector\<close> on a page where no element has an \<open>id\<close>, at the two strings
  of the examples: \<open>#\<close> alone is not a selector and makes it throw a SyntaxError; \<open>#about\<close>
  is a selector and finds nothing. An instance of the parameter, used at these two strings
  only.\<close>

definition querySelector_no_ids :: "js_string \<Rightarrow> js_error + int option" where
  "querySelector_no_ids sel = (if sel = js ''#'' then Inl SyntaxError else Inr None)"

section \<open>Header scroll\<close>

text \<open>The closure variables \<open>lastScroll\<close> and \<open>ticking\<close>, the class list of the header,
  \<open>window.scrollY\<close>, and the number of callbacks this listener has handed to
  \<open>requestAnimationFrame\<close> that have not run yet.\<close>

record header =
  lastScroll :: real
  ticking :: bool
  header_classList :: "string list"
  scrollY :: real
  raf_pending :: nat

text \<open>The animation-frame callback.\<close>

definition update_header :: "header \<Rightarrow> header" where
  "update_header h =
     (let currentScroll = scrollY h;
          headerClasses = header_classList h;
          headerClasses' =
            (if currentScroll \<le> 0 then
               classList_remove ''header--scrolled'' (classList_remove ''header--hidden'' headerClasses)
             else
               classList_toggle_force ''header--scrolled'' (currentScroll > 50)
                 (if currentScroll > lastScroll h \<and> currentScroll > 100
                  then classList_add ''header--hidden'' headerClasses
                  else classList_remove ''header--hidden'' headerClasses))
      in h\<lparr>header_classList := headerClasses', lastScroll := currentScroll, ticking := False\<rparr>)"

text \<open>The scroll listener.\<close>

definition on_scroll :: "header \<Rightarrow> header" where
  "on_scroll h = (if \<not> ticking h then h\<lparr>raf_pending := raf_pending h + 1, ticking := True\<rparr> else h)"

text \<open>The browser: a scroll event at position \<open>y\<close> sets \<open>window.scrollY\<close> and runs the
  listener; an animation frame runs the callbacks that are pending.\<close>

definition scroll_event :: "real \<Rightarrow> header \<Rightarrow> header" where
  "scroll_event y h = on_scroll (h\<lparr>scrollY := y\<rparr>)"

definition animation_frame :: "header \<Rightarrow> header" where
  "animation_frame h = (update_header ^^ raf_pending h) (h\<lparr>raf_pending := 0\<rparr>)"

text \<open>One evaluation of the callback at the position \<open>y\<close>.\<close>

definition evaluate_at :: "real \<Rightarrow> header \<Rightarrow> header" where
  "evaluate_at y h = update_header (h\<lparr>scrollY := y\<rparr>)"

section \<open>Lazy loading\<close>

text \<open>An image: \<open>dataset.src\<close> (the attribute \<open>data-src\<close>, \<open>None\<close> when absent), \<open>src\<close>, the
  class list, and the \<open>source\<close> elements found by
  \<open>img.parentElement.querySelectorAll('source')\<close> (an intersecting image is in the document
  and has a parent). A source: \<open>dataset.srcset\<close> and \<open>srcset\<close>.
  The page: its images and sources by index, and the targets the observer observes.\<close>

record img =
  dataset_src :: "js_string option"
  img_src :: "js_string option"
  img_classList :: "string list"
  img_sources :: "nat list"

record source =
  dataset_srcset :: "js_string option"
  source_srcset :: "js_string option"

record lazy =
  imgs :: "nat \<Rightarrow> img"
  sources :: "nat \<Rightarrow> source"
  observed :: "nat set"

text \<open>A \<open>dataset\<close> entry used as a condition: defined and not the empty string.\<close>

definition truthy :: "js_string option \<Rightarrow> bool" where
  "truthy x = (case x of None \<Rightarrow> False | Some v \<Rightarrow> v \<noteq> [])"

definition load_source :: "nat \<Rightarrow> lazy \<Rightarrow> lazy" where
  "load_source k s =
     (if truthy (dataset_srcset (sources s k))
      then s\<lparr>sources := (sources s)
               (k := (sources s k)\<lparr>source_srcset := dataset_srcset (sources s k),
                                   dataset_srcset := None\<rparr>)\<rparr>
      else s)"

definition load_img :: "nat \<Rightarrow> lazy \<Rightarrow> lazy" where
  "load_img i s =
     (if truthy (dataset_src (imgs s i))
      then s\<lparr>imgs := (imgs s)
               (i := (imgs s i)\<lparr>img_src := dataset_src (imgs s i), dataset_src := None\<rparr>)\<rparr>
      else s)"

text \<open>The body of \<open>entries.forEach\<close> for one entry, given by its target and
  \<open>isIntersecting\<close>; and the observer's callback on a list of entries.\<close>

definition on_intersect :: "nat \<times> bool \<Rightarrow> lazy \<Rightarrow> lazy" where
  "on_intersect entry s =
     (case entry of (target, isIntersecting) \<Rightarrow>
        if \<not> isIntersecting then s
        else
          (let s1 = fold load_source (img_sources (imgs s target)) s;
               s2 = load_img target s1;
               s3 = s2\<lparr>imgs := (imgs s2)
                      (target := (imgs s2 target)
                         \<lparr>img_classList := classList_add ''loaded'' (img_classList (imgs s2 target))\<rparr>)\<rparr>
           in s3\<lparr>observed := observed s3 - {target}\<rparr>))"

definition observer_callback :: "(nat \<times> bool) list \<Rightarrow> lazy \<Rightarrow> lazy" where
  "observer_callback entries s = fold on_intersect entries s"

text \<open>\<open>setupLazyLoading\<close>: nothing without \<open>IntersectionObserver\<close>; otherwise every image of
  the document that matches \<open>img[data-src]\<close> is observed.\<close>

definition setupLazyLoading :: "bool \<Rightarrow> nat list \<Rightarrow> lazy \<Rightarrow> lazy" where
  "setupLazyLoading hasIntersectionObserver document_imgs s =
     (if \<not> hasIntersectionObserver then s
      else s\<lparr>observed := set (filter (\<lambda>i. dataset_src (imgs s i) \<noteq> None) document_imgs)\<rparr>)"

text \<open>An image that its own intersection no longer changes.\<close>

definition settled :: "nat \<Rightarrow> lazy \<Rightarrow> bool" where
  "settled i s \<longleftrightarrow>
     i \<notin> observed s \<and> ''loaded'' \<in> set (img_classList (imgs s i)) \<and>
     \<not> truthy (dataset_src (imgs s i)) \<and>
     list_all (\<lambda>k. \<not> truthy (dataset_srcset (sources s k))) (img_sources (imgs s i))"

text \<open>Two pages for the examples: every \<open>picture\<close> holds one \<open>source\<close> with a pending
  \<open>data-srcset\<close> and an image with a pending \<open>data-src\<close>; and a page whose images carry an
  empty \<open>data-src\<close> attribute and have no \<open>source\<close> beside them.\<close>

definition picture_page :: lazy where
  "picture_page =
     \<lparr>imgs = (\<lambda>i. \<lparr>dataset_src = Some (js ''a.jpg''), img_src = None, img_classList = [],
                     img_sources = [i]\<rparr>),
      sources = (\<lambda>k. \<lparr>dataset_srcset = Some (js ''a.webp''), source_srcset = None\<rparr>),
      observed = {}\<rparr>"

definition empty_marker_page :: lazy where
  "empty_marker_page =
     \<lparr>imgs = (\<lambda>i. \<lparr>dataset_src = Some [], img_src = None, img_classList = [],
                     img_sources = []\<rparr>),
      sources = (\<lambda>k. \<lparr>dataset_srcset = None, source_srcset = None\<rparr>),
      observed = {}\<rparr>"

section \<open>Form submission\<close>

text \<open>The form: its fields by index, the element children of the form element, and the
  calls made to the collaborator \<open>submitForm\<close>, each with the object it was given. A value
  of a \<open>FormData\<close> entry is a string or a file.\<close>

datatype entry_value = StringValue js_string | FileValue

record form =
  form_fields :: "nat \<Rightarrow> field"
  form_tree :: "node list"
  submitted :: "(js_string \<rightharpoonup> entry_value) list"

text \<open>\<open>elements.form.querySelectorAll('input, textarea')\<close>: the fields in document order.\<close>

fun fields_of :: "node list \<Rightarrow> nat list" where
  "fields_of [] = []"
| "fields_of (FieldEl i # ns) = i # fields_of ns"
| "fields_of (Message t # ns) = fields_of ns"
| "fields_of (Elem ks # ns) = fields_of ks @ fields_of ns"

text \<open>The children of \<open>field.parentElement\<close> for the field \<open>i\<close>, \<open>None\<close> when the field is
  not in the tree; and the tree with those children replaced.\<close>

fun find_parent :: "nat \<Rightarrow> node list \<Rightarrow> node list option"
  and find_below :: "nat \<Rightarrow> node list \<Rightarrow> node list option" where
  "find_parent i ks = (if FieldEl i \<in> set ks then Some ks else find_below i ks)"
| "find_below i [] = None"
| "find_below i (Elem cs # ns) =
     (case find_parent i cs of Some p \<Rightarrow> Some p | None \<Rightarrow> find_below i ns)"
| "find_below i (FieldEl j # ns) = find_below i ns"
| "find_below i (Message t # ns) = find_below i ns"

fun put_parent :: "nat \<Rightarrow> node list \<Rightarrow> node list \<Rightarrow> node list"
  and put_below :: "nat \<Rightarrow> node list \<Rightarrow> node list \<Rightarrow> node list" where
  "put_parent i new ks = (if FieldEl i \<in> set ks then new else put_below i new ks)"
| "put_below i new [] = []"
| "put_below i new (Elem cs # ns) =
     (if find_parent i cs \<noteq> None then Elem (put_parent i new cs) # ns
      else Elem cs # put_below i new ns)"
| "put_below i new (FieldEl j # ns) = FieldEl j # put_below i new ns"
| "put_below i new (Message t # ns) = Message t # put_below i new ns"

text \<open>\<open>validateField(field)\<close> for the field \<open>i\<close> of the form. A field without a parent
  element makes \<open>field.parentElement.querySelector\<close> throw, after the class \<open>error\<close> was
  removed from it.\<close>

definition validate_in_form ::
  "(js_string \<Rightarrow> number) \<Rightarrow> nat \<Rightarrow> form \<Rightarrow> js_error \<times> form + bool \<times> form" where
  "validate_in_form T i s =
     (let f = form_fields s i in
      case find_parent i (form_tree s) of
        None \<Rightarrow>
          Inl (TypeError,
               s\<lparr>form_fields := (form_fields s)
                    (i := f\<lparr>field_classList := classList_remove ''error'' (field_classList f)\<rparr>)\<rparr>)
      | Some ks \<Rightarrow>
          (case validateField T f ks of
             (isValid, f', ks') \<Rightarrow>
               Inr (isValid,
                    s\<lparr>form_fields := (form_fields s)(i := f'),
                      form_tree := put_parent i ks' (form_tree s)\<rparr>)))"

text \<open>\<open>fields.forEach(field => { if (!validateField(field)) isValid = false; })\<close>.\<close>

fun validate_fields ::
  "(js_string \<Rightarrow> number) \<Rightarrow> nat list \<Rightarrow> bool \<Rightarrow> form \<Rightarrow> js_error \<times> form + bool \<times> form" where
  "validate_fields T [] isValid s = Inr (isValid, s)"
| "validate_fields T (i # fs) isValid s =
     (case validate_in_form T i s of
        Inl e \<Rightarrow> Inl e
      | Inr (ok, s') \<Rightarrow> validate_fields T fs (if \<not> ok then False else isValid) s')"

text \<open>\<open>Object.fromEntries\<close>: a later entry replaces an earlier one of the same name.\<close>

definition Object_fromEntries :: "(js_string \<times> entry_value) list \<Rightarrow> (js_string \<rightharpoonup> entry_value)" where
  "Object_fromEntries entries = fold (\<lambda>(k, v) obj. obj(k \<mapsto> v)) entries Map.empty"

text \<open>The submit listener prevents the default and hands a callback to
  \<open>requestAnimationFrame\<close>; the callback holds \<open>fields\<close> (here \<open>fs\<close>) and \<open>formData\<close> as they were at the
  submit event. \<open>formData\<close> is the entry list that \<open>new FormData(elements.form)\<close> built: the
  browser's, a parameter here. The listener returns \<open>defaultPrevented\<close> and the two captured
  values; \<open>submit_callback\<close> is the callback, run on the state of its animation frame.\<close>

definition submit_listener ::
  "(js_string \<times> entry_value) list \<Rightarrow> form \<Rightarrow> bool \<times> nat list \<times> (js_string \<times> entry_value) list" where
  "submit_listener formData s = (True, fields_of (form_tree s), formData)"

definition submit_callback ::
  "(js_string \<Rightarrow> number) \<Rightarrow> nat list \<Rightarrow> (js_string \<times> entry_value) list \<Rightarrow> form
     \<Rightarrow> js_error \<times> form + form" where
  "submit_callback T fs formData s =
     (case validate_fields T fs True s of
        Inl e \<Rightarrow> Inl e
      | Inr (isValid, s') \<Rightarrow>
          if isValid then Inr (s'\<lparr>submitted := submitted s' @ [Object_fromEntries formData]\<rparr>)
          else Inr s')"

text \<open>A form whose one control is \<open><input type="text" value="hello">\<close>, without a name.\<close>

definition nameless_form :: form where
  "nameless_form =
     \<lparr>form_fields = (\<lambda>i. input_element (js ''text'') (js ''hello'') None),
      form_tree = [FieldEl 0],
      submitted = []\<rparr>"

text \<open>A form with one control, \<open><input type="email" name="email">\<close> with the given value,
  inside a wrapping element.\<close>

definition contact_form :: "js_string \<Rightarrow> form" where
  "contact_form v =
     \<lparr>form_fields = (\<lambda>i. (input_element (js ''email'') v None)\<lparr>field_name := Some (js ''email'')\<rparr>),
      form_tree = [Elem [FieldEl 0]],
      submitted = []\<rparr>"

section \<open>Properties of the pattern matcher\<close>









section \<open>Field validation\<close>

lemma validateField_valid: "fst (validateField T f ks) = fst (validation_rule T f)"
  by (cases "validation_rule T f") (simp add: validateField_def Let_def)

lemma validateField_invalid:
  "\<not> fst (validation_rule T f) \<Longrightarrow>
     validateField T f ks =
       (False,
        f\<lparr>field_classList := classList_add ''error'' (classList_remove ''error'' (field_classList f))\<rparr>,
        remove_error ks @ [Message (snd (validation_rule T f))])"
  by (cases "validation_rule T f") (simp add: validateField_def Let_def)

lemma rule_email:
  "field_type f = js ''email'' \<Longrightarrow>
     validation_rule T f = (regex_test email_regex (trim (field_value f)), js ''Please enter a valid email'')"
  by (simp add: validation_rule_def Let_def)

lemma rule_other:
  "field_type f \<noteq> js ''email'' \<Longrightarrow>
     validation_rule T f =
       (length_ge_min T (length (trim (field_value f))) (minLength_of f),
        js ''Minimum '' @ min_length_text (minLength_of f) @ js '' characters required'')"
  by (simp add: validation_rule_def Let_def)

lemma trim_a_b_co: "trim (js ''a@b.co'') = js ''a@b.co''"
  by (simp add: trim_def js_def is_white_space_def)

lemma trim_not_an_email: "trim (js ''not-an-email'') = js ''not-an-email''"
  by (simp add: trim_def js_def is_white_space_def)

lemma test_a_b_co: "regex_test email_regex (js ''a@b.co'')"
  by (simp add: email_regex_def one_or_more_def js_def not_space_at_def is_white_space_def)

lemma test_not_an_email: "\<not> regex_test email_regex (js ''not-an-email'')"
  by (simp add: email_regex_def one_or_more_def js_def not_space_at_def is_white_space_def)


lemma trim_abcd: "trim (js ''abcd'') = js ''abcd''" and trim_abcde: "trim (js ''abcde'') = js ''abcde''"
  by (simp_all add: trim_def js_def is_white_space_def)

lemma js_neq_email: "js ''text'' \<noteq> js ''email''"
  by (simp add: js_def)

lemma ToNumber_digits_5: "ToNumber_digits (js ''5'') = Finite 5" and ToNumber_digits_empty: "ToNumber_digits [] = Finite 0"
  by (simp_all add: ToNumber_digits_def js_def)






text \<open>C5. For a field whose type is not \<open>email\<close>, \<open>validateField\<close> returns true exactly
  when the length of the trimmed value is at least the minimum configured in
  \<open>data-min-length\<close> (0 when the attribute is absent); the comparison is JavaScript's, false
  against NaN. With \<open>data-min-length="5"\<close> the value \<open>abcd\<close> validates false with the message
  \<open>Minimum 5 characters required\<close>, and \<open>abcde\<close> validates true. ToNumber maps the empty
  string to 0 and the string \<open>5\<close> to 5.\<close>

theorem validateField_minLength:
  "field_type f \<noteq> js ''email'' \<Longrightarrow> T [] = Finite 0 \<Longrightarrow> T (js ''5'') = Finite 5 \<Longrightarrow>
     (fst (validateField T f ks)
        \<longleftrightarrow> length_ge (length (trim (field_value f))) (configured_minimum T f)) \<and>
     validateField T (f\<lparr>field_value := js ''abcd'', dataset_minLength := Some (js ''5'')\<rparr>) ks
       = (False,
          f\<lparr>field_value := js ''abcd'', dataset_minLength := Some (js ''5''),
            field_classList := classList_add ''error'' (classList_remove ''error'' (field_classList f))\<rparr>,
          remove_error ks @ [Message (js ''Minimum 5 characters required'')]) \<and>
     fst (validateField T (f\<lparr>field_value := js ''abcde'', dataset_minLength := Some (js ''5'')\<rparr>) ks)"
proof -
  assume ty: "field_type f \<noteq> js ''email''" and t0: "T [] = Finite 0" and t5: "T (js ''5'') = Finite 5"
  let ?g = "f\<lparr>field_value := js ''abcd'', dataset_minLength := Some (js ''5'')\<rparr>"
  let ?h = "f\<lparr>field_value := js ''abcde'', dataset_minLength := Some (js ''5'')\<rparr>"
  have five: "js ''5'' \<noteq> []"
    by (simp add: js_def)
  have a: "fst (validateField T f ks)
             \<longleftrightarrow> length_ge (length (trim (field_value f))) (configured_minimum T f)"
    using ty t0
    by (simp add: validateField_valid rule_other minLength_of_def configured_minimum_def
          split: option.splits)
  have msg: "js ''Minimum '' @ js ''5'' @ js '' characters required'' = js ''Minimum 5 characters required''"
    by (simp add: js_def)
  have len4: "length (js ''abcd'') = 4" and len5: "length (js ''abcde'') = 5"
    by (simp_all add: js_def)
  have r: "validation_rule T ?g = (False, js ''Minimum 5 characters required'')"
    using ty t5 five by (simp add: rule_other minLength_of_def trim_abcd msg len4)
  have b: "validateField T ?g ks
       = (False,
          f\<lparr>field_value := js ''abcd'', dataset_minLength := Some (js ''5''),
            field_classList := classList_add ''error'' (classList_remove ''error'' (field_classList f))\<rparr>,
          remove_error ks @ [Message (js ''Minimum 5 characters required'')])"
    using r by (simp add: validateField_invalid)
  have c: "fst (validateField T ?h ks)"
    using ty t5 five by (simp add: validateField_valid rule_other minLength_of_def trim_abcde len5)
  from a b c show ?thesis by blast
qed

theorem validateField_minLength_witness:
  "\<not> fst (validateField ToNumber_digits (input_element (js ''text'') (js ''abcd'') (Some (js ''5''))) []) \<and>
   \<not> length_ge 4 (Finite 5) \<and>
   fst (validateField ToNumber_digits (input_element (js ''text'') (js ''abcde'') (Some (js ''5''))) [])"
proof -
  have ty: "field_type (input_element (js ''text'') (js ''abcd'') (Some (js ''5''))) \<noteq> js ''email''"
    by (simp add: input_element_def js_neq_email)
  show ?thesis
    using validateField_minLength [OF ty ToNumber_digits_empty ToNumber_digits_5, of "[]"]
    by (auto simp: input_element_def)
qed




section \<open>Mobile menu\<close>

text \<open>C7. A click on a nav link (the element found by \<open>closest\<close> carries \<open>nav__link\<close> and
  is not the toggle button) on a page with a nav list: at a viewport width of 768 or more the
  menu state is unchanged; below 768 the menu is closed, whether it was open or not: the
  active classes are off the nav list and the button, the body overflow is cleared and
  \<open>isMenuOpen\<close> is false.\<close>

theorem nav_link_click:
  "classList_contains ''nav__link'' target \<Longrightarrow> \<not> classList_contains ''nav__mobile-btn'' target \<Longrightarrow>
   navList m = Some nl \<Longrightarrow>
     (768 \<le> w \<longrightarrow> nav_click (Some target) w m = Inr m) \<and>
     (w < 768 \<longrightarrow>
        (\<exists>m'. nav_click (Some target) w m = Inr m' \<and>
           \<not> isMenuOpen m' \<and>
           navList m' = Some (classList_remove ''nav__list--active'' nl) \<and>
           \<not> classList_contains ''nav__list--active'' (classList_remove ''nav__list--active'' nl) \<and>
           \<not> classList_contains ''nav__mobile-btn--active'' (mobileBtn m') \<and>
           body_overflow m' = []))"
  by (simp add: nav_click_def classList_contains_def classList_remove_def)

theorem nav_link_click_witness:
  "nav_click (Some [''nav__link'']) 1024
     \<lparr>isMenuOpen = True, navList = Some [''nav__list'', ''nav__list--active''],
      mobileBtn = [''nav__mobile-btn'', ''nav__mobile-btn--active''], body_overflow = js ''hidden''\<rparr>
   = Inr \<lparr>isMenuOpen = True, navList = Some [''nav__list'', ''nav__list--active''],
      mobileBtn = [''nav__mobile-btn'', ''nav__mobile-btn--active''], body_overflow = js ''hidden''\<rparr> \<and>
   nav_click (Some [''nav__link'']) 767
     \<lparr>isMenuOpen = True, navList = Some [''nav__list'', ''nav__list--active''],
      mobileBtn = [''nav__mobile-btn'', ''nav__mobile-btn--active''], body_overflow = js ''hidden''\<rparr>
   = Inr \<lparr>isMenuOpen = False, navList = Some [''nav__list''],
      mobileBtn = [''nav__mobile-btn''], body_overflow = []\<rparr>"
proof -
  let ?m = "\<lparr>isMenuOpen = True, navList = Some [''nav__list'', ''nav__list--active''],
      mobileBtn = [''nav__mobile-btn'', ''nav__mobile-btn--active''], body_overflow = js ''hidden''\<rparr>"
  have a: "classList_contains ''nav__link'' [''nav__link'']"
    and b: "\<not> classList_contains ''nav__mobile-btn'' [''nav__link'']"
    and c: "navList ?m = Some [''nav__list'', ''nav__list--active'']"
    by (simp_all add: classList_contains_def)
  have wide: "nav_click (Some [''nav__link'']) 1024 ?m = Inr ?m"
    using nav_link_click [OF a b c, of 1024] by simp
  have narrow: "nav_click (Some [''nav__link'']) 767 ?m
   = Inr \<lparr>isMenuOpen = False, navList = Some [''nav__list''],
      mobileBtn = [''nav__mobile-btn''], body_overflow = []\<rparr>"
    using nav_link_click [OF a b c, of 767]
    by (auto simp: classList_remove_def nav_click_def classList_contains_def)
  from wide narrow show ?thesis by simp
qed

section \<open>Header scroll\<close>

text \<open>C2. Starting from \<open>lastScroll = 0\<close> and a header without classes, evaluating the
  positions 0, 150, 200 in order leaves \<open>header--hidden\<close> and \<open>header--scrolled\<close> on the
  header; evaluating 200, 0 leaves neither; and an evaluation at any position at or below 0,
  from any state, leaves neither.\<close>

theorem header_scroll_sequences:
  "lastScroll h = 0 \<Longrightarrow> header_classList h = [] \<Longrightarrow> y \<le> 0 \<Longrightarrow>
     classList_contains ''header--hidden'' (header_classList (fold evaluate_at [0, 150, 200] h)) \<and>
     classList_contains ''header--scrolled'' (header_classList (fold evaluate_at [0, 150, 200] h)) \<and>
     \<not> classList_contains ''header--hidden'' (header_classList (fold evaluate_at [200, 0] h)) \<and>
     \<not> classList_contains ''header--scrolled'' (header_classList (fold evaluate_at [200, 0] h)) \<and>
     \<not> classList_contains ''header--hidden'' (header_classList (evaluate_at y g)) \<and>
     \<not> classList_contains ''header--scrolled'' (header_classList (evaluate_at y g))"
  by (simp add: evaluate_at_def update_header_def classList_contains_def classList_add_def
        classList_remove_def classList_toggle_force_def)

theorem header_scroll_sequences_witness:
  "header_classList (fold evaluate_at [0, 150, 200]
      \<lparr>lastScroll = 0, ticking = False, header_classList = [], scrollY = 0, raf_pending = 0\<rparr>)
     = [''header--hidden'', ''header--scrolled''] \<and>
   header_classList (fold evaluate_at [200, 0]
      \<lparr>lastScroll = 0, ticking = False, header_classList = [], scrollY = 0, raf_pending = 0\<rparr>) = [] \<and>
   \<not> classList_contains ''header--hidden'' (header_classList (evaluate_at (-5)
      \<lparr>lastScroll = 300, ticking = True, header_classList = [''header--hidden'', ''header--scrolled''],
       scrollY = 300, raf_pending = 1\<rparr>))"
proof -
  let ?h = "\<lparr>lastScroll = 0, ticking = False, header_classList = [], scrollY = 0, raf_pending = 0\<rparr>"
  let ?g = "\<lparr>lastScroll = 300, ticking = True, header_classList = [''header--hidden'', ''header--scrolled''],
       scrollY = 300, raf_pending = 1\<rparr>"
  have a: "lastScroll ?h = 0" and b: "header_classList ?h = []" and c: "(-5::real) \<le> 0"
    by simp_all
  have "\<not> classList_contains ''header--hidden'' (header_classList (evaluate_at (-5) ?g))"
    using header_scroll_sequences [OF a b c, of ?g] by blast
  moreover have "header_classList (fold evaluate_at [0, 150, 200] ?h) = [''header--hidden'', ''header--scrolled'']"
    by (simp add: evaluate_at_def update_header_def classList_add_def
        classList_remove_def classList_toggle_force_def)
  moreover have "header_classList (fold evaluate_at [200, 0] ?h) = []"
    by (simp add: evaluate_at_def update_header_def classList_add_def
        classList_remove_def classList_toggle_force_def)
  ultimately show ?thesis by simp
qed

lemma fold_scroll_event:
  "ys \<noteq> [] \<Longrightarrow> \<not> ticking h \<Longrightarrow>
     fold scroll_event ys h = h\<lparr>scrollY := last ys, raf_pending := raf_pending h + 1, ticking := True\<rparr>"
proof (induction ys arbitrary: h rule: rev_induct)
  case Nil
  then show ?case by simp
next
  case (snoc y ys)
  show ?case
  proof (cases "ys = []")
    case True
    with snoc.prems show ?thesis
      by (simp add: scroll_event_def on_scroll_def)
  next
    case False
    with snoc show ?thesis
      by (simp add: scroll_event_def on_scroll_def)
  qed
qed

text \<open>C8. When no callback is pending and \<open>n \<ge> 1\<close> scroll events arrive before the next
  animation frame, one callback is pending after them, and the frame runs the callback once,
  at the scroll position of the last event: the state after the frame is the state before
  the events with one update computed from that position.\<close>

theorem scroll_events_coalesced:
  "ys \<noteq> [] \<Longrightarrow> \<not> ticking h \<Longrightarrow> raf_pending h = 0 \<Longrightarrow>
     raf_pending (fold scroll_event ys h) = 1 \<and>
     animation_frame (fold scroll_event ys h) = update_header (h\<lparr>scrollY := last ys\<rparr>) \<and>
     raf_pending (animation_frame (fold scroll_event ys h)) = 0 \<and>
     \<not> ticking (animation_frame (fold scroll_event ys h))"
  by (simp add: fold_scroll_event animation_frame_def update_header_def Let_def)

theorem scroll_events_coalesced_witness:
  "animation_frame (fold scroll_event [10, 120, 60]
      \<lparr>lastScroll = 0, ticking = False, header_classList = [], scrollY = 0, raf_pending = 0\<rparr>)
   = \<lparr>lastScroll = 60, ticking = False, header_classList = [''header--scrolled''], scrollY = 60,
      raf_pending = 0\<rparr>"
proof -
  let ?h = "\<lparr>lastScroll = 0, ticking = False, header_classList = [], scrollY = 0, raf_pending = 0\<rparr>"
  have a: "[10, 120, 60::real] \<noteq> []" and b: "\<not> ticking ?h" and c: "raf_pending ?h = 0"
    by simp_all
  show ?thesis
    using scroll_events_coalesced [OF a b c]
    by (simp add: update_header_def classList_add_def classList_remove_def
          classList_toggle_force_def)
qed

section \<open>Smooth scroll\<close>

text \<open>When \<open>document.querySelector(href)\<close> returns null for a \<open>href\<close> that starts with
  \<open>#\<close>, the guard \<open>if (target)\<close> makes the handler return without throwing: the default
  is prevented, no scroll is requested and nothing else changes.\<close>

lemma smooth_scroll_null_target:
  "prefix (js ''#'') h \<Longrightarrow> querySelector h = Inr None \<Longrightarrow>
     smooth_scroll_click headerHeight querySelector (Some h) e = Inr (e\<lparr>defaultPrevented := True\<rparr>) \<and>
     scrollTo_calls (e\<lparr>defaultPrevented := True\<rparr>) = scrollTo_calls e"
  by (simp add: smooth_scroll_click_def)

lemma smooth_scroll_null_target_example:
  "smooth_scroll_click 80 querySelector_no_ids (Some (js ''#about''))
      \<lparr>defaultPrevented = False, scrollTo_calls = []\<rparr>
   = Inr \<lparr>defaultPrevented = True, scrollTo_calls = []\<rparr>"
proof -
  have a: "prefix (js ''#'') (js ''#about'')"
    by (simp add: js_def)
  have b: "querySelector_no_ids (js ''#about'') = Inr None"
    by (simp add: querySelector_no_ids_def js_def)
  show ?thesis
    using smooth_scroll_null_target [of "js ''#about''" querySelector_no_ids 80, OF a b]
    by simp
qed

text \<open>The handler throws in two more ways: \<open>document.querySelector\<close> throws a SyntaxError
  on a \<open>href\<close> that is not a selector, after the default was prevented; and on a page without
  \<open>.nav__list\<close> a click on the toggle button throws after \<open>isMenuOpen\<close> was flipped.\<close>

lemma smooth_scroll_click_invalid_selector:
  "prefix (js ''#'') h \<Longrightarrow> querySelector h = Inl err \<Longrightarrow>
     smooth_scroll_click headerHeight querySelector (Some h) e
       = Inl (err, e\<lparr>defaultPrevented := True\<rparr>)"
  by (simp add: smooth_scroll_click_def)

lemma nav_click_without_nav_list:
  "classList_contains ''nav__mobile-btn'' target \<Longrightarrow> navList m = None \<Longrightarrow>
     nav_click (Some target) w m = Inl (TypeError, m\<lparr>isMenuOpen := \<not> isMenuOpen m\<rparr>)"
  by (simp add: nav_click_def)

text \<open>C9. A click on a link whose \<open>href\<close> is \<open>#\<close> alone: the \<open>href\<close> starts with \<open>#\<close> and no
  element is its target, yet the handler raises an error. The default is prevented, then
  \<open>document.querySelector('#')\<close> throws a SyntaxError, which the handler does not catch; the
  guard \<open>if (target)\<close> is never reached.\<close>

theorem smooth_scroll_click_hash_only:
  "smooth_scroll_click headerHeight querySelector_no_ids (Some (js ''#'')) e
     = Inl (SyntaxError, e\<lparr>defaultPrevented := True\<rparr>)"
  by (simp add: smooth_scroll_click_def querySelector_no_ids_def)

text \<open>C10. A click on a link that has no \<open>href\<close> attribute: \<open>getAttribute\<close> returns null and
  \<open>href.startsWith\<close> throws a TypeError, in any state and on any page.\<close>

theorem smooth_scroll_click_without_href:
  "smooth_scroll_click headerHeight querySelector None e = Inl (TypeError, e)"
  by (simp add: smooth_scroll_click_def)

section \<open>Lazy loading\<close>

lemma fold_load_source_imgs [simp]: "imgs (fold load_source ks s) = imgs s"
  by (induction ks arbitrary: s) (simp_all add: load_source_def)

lemma fold_load_source_observed [simp]: "observed (fold load_source ks s) = observed s"
  by (induction ks arbitrary: s) (simp_all add: load_source_def)

lemma fold_load_source_sources:
  "sources (fold load_source ks s) j =
     (if j \<in> set ks \<and> truthy (dataset_srcset (sources s j))
      then (sources s j)\<lparr>source_srcset := dataset_srcset (sources s j), dataset_srcset := None\<rparr>
      else sources s j)"
proof (induction ks arbitrary: s)
  case Nil
  show ?case by simp
next
  case (Cons k ks)
  show ?case
    by (simp add: Cons.IH) (auto simp: load_source_def truthy_def)
qed

lemma fold_load_source_id:
  "list_all (\<lambda>k. \<not> truthy (dataset_srcset (sources s k))) ks \<Longrightarrow> fold load_source ks s = s"
  by (induction ks) (simp_all add: load_source_def)

lemma on_intersect_not_intersecting [simp]: "on_intersect (j, False) s = s"
  by (simp add: on_intersect_def)

lemma on_intersect_observed: "observed (on_intersect (j, True) s) = observed s - {j}"
  by (simp add: on_intersect_def Let_def load_img_def)

lemma on_intersect_img_sources [simp]:
  "img_sources (imgs (on_intersect e s) i) = img_sources (imgs s i)"
  by (cases e) (simp add: on_intersect_def Let_def load_img_def)

lemma on_intersect_dataset_src:
  "dataset_src (imgs (on_intersect (j, True) s) i) =
     (if i = j \<and> truthy (dataset_src (imgs s i)) then None else dataset_src (imgs s i))"
  by (simp add: on_intersect_def Let_def load_img_def)

lemma on_intersect_img_src:
  "img_src (imgs (on_intersect (j, True) s) i) =
     (if i = j \<and> truthy (dataset_src (imgs s i)) then dataset_src (imgs s i) else img_src (imgs s i))"
  by (simp add: on_intersect_def Let_def load_img_def)

lemma on_intersect_classList:
  "img_classList (imgs (on_intersect (j, True) s) i) =
     (if i = j then classList_add ''loaded'' (img_classList (imgs s i)) else img_classList (imgs s i))"
  by (simp add: on_intersect_def Let_def load_img_def)

lemma on_intersect_sources:
  "sources (on_intersect (j, True) s) k =
     (if k \<in> set (img_sources (imgs s j)) \<and> truthy (dataset_srcset (sources s k))
      then (sources s k)\<lparr>source_srcset := dataset_srcset (sources s k), dataset_srcset := None\<rparr>
      else sources s k)"
  by (simp add: on_intersect_def Let_def load_img_def fold_load_source_sources)

lemma settled_after_intersect: "settled i (on_intersect (i, True) s)"
  by (simp add: settled_def on_intersect_observed on_intersect_dataset_src on_intersect_classList
        on_intersect_sources classList_add_def truthy_def list_all_iff)

lemma settled_preserved: "settled i s \<Longrightarrow> settled i (on_intersect e s)"
proof (cases e)
  case (Pair j b)
  assume "settled i s"
  then show ?thesis
    unfolding Pair
    by (cases b)
      (auto simp: settled_def on_intersect_observed on_intersect_dataset_src on_intersect_classList
        on_intersect_sources classList_add_def truthy_def list_all_iff)
qed

lemma settled_callback: "settled i s \<Longrightarrow> settled i (observer_callback es s)"
  unfolding observer_callback_def
  by (induction es arbitrary: s) (simp_all add: settled_preserved)

lemma settled_no_change: "settled i s \<Longrightarrow> on_intersect (i, True) s = s"
proof -
  assume h: "settled i s"
  then have src: "fold load_source (img_sources (imgs s i)) s = s"
    by (simp add: settled_def fold_load_source_id)
  from h have img: "load_img i s = s"
    by (simp add: settled_def load_img_def)
  from h have cl: "classList_add ''loaded'' (img_classList (imgs s i)) = img_classList (imgs s i)"
    by (simp add: settled_def classList_add_def)
  from h have ob: "observed s - {i} = observed s"
    by (simp add: settled_def)
  show ?thesis
    by (simp add: on_intersect_def Let_def src img cl ob)
qed

text \<open>C3, as stated: after the first intersection the \<open>data-src\<close> marker is deleted. It
  fails for an image whose \<open>data-src\<close> attribute is empty: the image matches
  \<open>img[data-src]\<close> and is observed, and its intersection unobserves it, but
  \<open>if (img.dataset.src)\<close> is false, so the marker stays and \<open>src\<close> is not set.\<close>

theorem lazy_load_empty_marker_counterexample:
  "0 \<in> observed (setupLazyLoading True [0] empty_marker_page) \<and>
   0 \<notin> observed (on_intersect (0, True) (setupLazyLoading True [0] empty_marker_page)) \<and>
   dataset_src (imgs (on_intersect (0, True) (setupLazyLoading True [0] empty_marker_page)) 0) = Some [] \<and>
   img_src (imgs (on_intersect (0, True) (setupLazyLoading True [0] empty_marker_page)) 0) = None"
  by (simp add: on_intersect_observed on_intersect_dataset_src on_intersect_img_src
        setupLazyLoading_def empty_marker_page_def truthy_def)

text \<open>C3, amended. On the intersection of an image, each source beside it whose
  \<open>data-srcset\<close> is not empty has it promoted to \<open>srcset\<close> and deleted, the image's
  \<open>data-src\<close>, when not empty, is promoted to \<open>src\<close> and deleted, the class \<open>loaded\<close> is
  added and the image is unobserved. After that, whatever entries the callback processes, the
  image stays unobserved and a later intersection of it changes nothing: the load transition
  happens at most once per element.\<close>

theorem lazy_load_once:
  "i \<notin> observed (on_intersect (i, True) s) \<and>
   ''loaded'' \<in> set (img_classList (imgs (on_intersect (i, True) s) i)) \<and>
   (truthy (dataset_src (imgs s i)) \<longrightarrow>
      img_src (imgs (on_intersect (i, True) s) i) = dataset_src (imgs s i) \<and>
      dataset_src (imgs (on_intersect (i, True) s) i) = None) \<and>
   (\<forall>k \<in> set (img_sources (imgs s i)).
      truthy (dataset_srcset (sources s k)) \<longrightarrow>
        source_srcset (sources (on_intersect (i, True) s) k) = dataset_srcset (sources s k) \<and>
        dataset_srcset (sources (on_intersect (i, True) s) k) = None) \<and>
   i \<notin> observed (observer_callback es (on_intersect (i, True) s)) \<and>
   on_intersect (i, True) (observer_callback es (on_intersect (i, True) s))
     = observer_callback es (on_intersect (i, True) s)"
proof -
  have st: "settled i (observer_callback es (on_intersect (i, True) s))"
    by (simp add: settled_after_intersect settled_callback)
  have a: "i \<notin> observed (on_intersect (i, True) s)"
    by (simp add: on_intersect_observed)
  have b: "''loaded'' \<in> set (img_classList (imgs (on_intersect (i, True) s) i))"
    by (simp add: on_intersect_classList classList_add_def)
  have c: "truthy (dataset_src (imgs s i)) \<longrightarrow>
      img_src (imgs (on_intersect (i, True) s) i) = dataset_src (imgs s i) \<and>
      dataset_src (imgs (on_intersect (i, True) s) i) = None"
    by (simp add: on_intersect_img_src on_intersect_dataset_src)
  have d: "\<forall>k \<in> set (img_sources (imgs s i)).
      truthy (dataset_srcset (sources s k)) \<longrightarrow>
        source_srcset (sources (on_intersect (i, True) s) k) = dataset_srcset (sources s k) \<and>
        dataset_srcset (sources (on_intersect (i, True) s) k) = None"
    by (simp add: on_intersect_sources)
  from st have e: "i \<notin> observed (observer_callback es (on_intersect (i, True) s))"
    by (simp add: settled_def)
  from st have f: "on_intersect (i, True) (observer_callback es (on_intersect (i, True) s))
     = observer_callback es (on_intersect (i, True) s)"
    by (rule settled_no_change)
  from a b c d e f show ?thesis by blast
qed

theorem lazy_load_once_witness:
  "img_src (imgs (on_intersect (0, True) (setupLazyLoading True [0, 1] picture_page)) 0)
     = Some (js ''a.jpg'') \<and>
   dataset_src (imgs (on_intersect (0, True) (setupLazyLoading True [0, 1] picture_page)) 0) = None \<and>
   source_srcset (sources (on_intersect (0, True) (setupLazyLoading True [0, 1] picture_page)) 0)
     = Some (js ''a.webp'') \<and>
   on_intersect (0, True)
     (observer_callback [(1, True), (0, False)]
        (on_intersect (0, True) (setupLazyLoading True [0, 1] picture_page)))
     = observer_callback [(1, True), (0, False)]
        (on_intersect (0, True) (setupLazyLoading True [0, 1] picture_page))"
proof -
  let ?s = "setupLazyLoading True [0, 1] picture_page"
  have t: "truthy (dataset_src (imgs ?s 0))"
    and src: "dataset_src (imgs ?s 0) = Some (js ''a.jpg'')"
    and k: "img_sources (imgs ?s 0) = [0]"
    and tk: "truthy (dataset_srcset (sources ?s 0))"
    and srcset: "dataset_srcset (sources ?s 0) = Some (js ''a.webp'')"
    by (simp_all add: setupLazyLoading_def picture_page_def truthy_def js_def)
  show ?thesis
    using lazy_load_once [of 0 ?s "[(1, True), (0, False)]"] t src k tk srcset
    by simp
qed

section \<open>Form submission\<close>

lemma fields_of_append: "fields_of (xs @ ys) = fields_of xs @ fields_of ys"
  by (induction xs rule: fields_of.induct) simp_all

lemma fields_of_remove_error: "fields_of (remove_error ks) = fields_of ks"
  by (induction ks rule: remove_error.induct) simp_all

lemma find_parent_in_tree:
  "i \<in> set (fields_of ks) \<Longrightarrow> find_parent i ks \<noteq> None"
  "i \<in> set (fields_of ks) \<Longrightarrow> FieldEl i \<notin> set ks \<Longrightarrow> find_below i ks \<noteq> None"
  by (induction i ks and i ks rule: find_parent_find_below.induct) (auto split: option.splits)

lemma fields_of_put_parent:
  "find_parent i ks = Some p \<Longrightarrow> fields_of new = fields_of p
     \<Longrightarrow> fields_of (put_parent i new ks) = fields_of ks"
  "find_below i ks = Some p \<Longrightarrow> fields_of new = fields_of p
     \<Longrightarrow> fields_of (put_below i new ks) = fields_of ks"
  by (induction i ks and i ks arbitrary: p and p rule: find_parent_find_below.induct)
     (auto split: option.splits if_splits)

lemma rule_classList [simp]: "validation_rule T (f\<lparr>field_classList := c\<rparr>) = validation_rule T f"
  by (simp add: validation_rule_def minLength_of_def)

lemma validateField_result:
  assumes "validateField T f ks = (v, f', ks')"
  shows "v = fst (validation_rule T f)"
    and "validation_rule T f' = validation_rule T f"
    and "''error'' \<in> set (field_classList f') \<longleftrightarrow> \<not> v"
    and "fields_of ks' = fields_of ks"
  using assms
  by (cases "validation_rule T f";
      auto simp: validateField_def Let_def classList_add_def classList_remove_def
        fields_of_append fields_of_remove_error split: if_splits)+

lemma validate_in_form_ok:
  assumes "i \<in> set (fields_of (form_tree s))"
  shows "\<exists>s'. validate_in_form T i s = Inr (fst (validation_rule T (form_fields s i)), s') \<and>
           fields_of (form_tree s') = fields_of (form_tree s) \<and>
           submitted s' = submitted s \<and>
           (\<forall>j. j \<noteq> i \<longrightarrow> form_fields s' j = form_fields s j) \<and>
           validation_rule T (form_fields s' i) = validation_rule T (form_fields s i) \<and>
           (''error'' \<in> set (field_classList (form_fields s' i))
              \<longleftrightarrow> \<not> fst (validation_rule T (form_fields s i)))"
proof -
  from assms obtain ks where ks: "find_parent i (form_tree s) = Some ks"
    using find_parent_in_tree(1) by blast
  obtain v f' ks' where r: "validateField T (form_fields s i) ks = (v, f', ks')"
    by (cases "validateField T (form_fields s i) ks") blast
  note res = validateField_result [OF r]
  let ?s' = "s\<lparr>form_fields := (form_fields s)(i := f'), form_tree := put_parent i ks' (form_tree s)\<rparr>"
  have "validate_in_form T i s = Inr (v, ?s')"
    using ks r by (simp add: validate_in_form_def Let_def)
  moreover have "fields_of (form_tree ?s') = fields_of (form_tree s)"
    using fields_of_put_parent(1) [OF ks res(4)] by simp
  ultimately show ?thesis
    using res(1,2,3) by simp
qed

lemma validate_fields_ok:
  "set fs \<subseteq> set (fields_of (form_tree s)) \<Longrightarrow>
     \<exists>s'. validate_fields T fs b s
             = Inr (b \<and> (\<forall>i \<in> set fs. fst (validation_rule T (form_fields s i))), s') \<and>
          fields_of (form_tree s') = fields_of (form_tree s) \<and>
          submitted s' = submitted s \<and>
          (\<forall>j. j \<notin> set fs \<longrightarrow> form_fields s' j = form_fields s j) \<and>
          (\<forall>j. validation_rule T (form_fields s' j) = validation_rule T (form_fields s j)) \<and>
          (\<forall>i \<in> set fs. ''error'' \<in> set (field_classList (form_fields s' i))
              \<longleftrightarrow> \<not> fst (validation_rule T (form_fields s i)))"
proof (induction fs arbitrary: s b)
  case Nil
  show ?case by simp
next
  case (Cons i fs)
  let ?v = "fst (validation_rule T (form_fields s i))"
  from Cons.prems have i: "i \<in> set (fields_of (form_tree s))"
    by simp
  from validate_in_form_ok [OF i, of T] obtain s1 where
    step: "validate_in_form T i s = Inr (?v, s1)" and
    tree1: "fields_of (form_tree s1) = fields_of (form_tree s)" and
    sub1: "submitted s1 = submitted s" and
    frame1: "\<forall>j. j \<noteq> i \<longrightarrow> form_fields s1 j = form_fields s j" and
    rule1: "validation_rule T (form_fields s1 i) = validation_rule T (form_fields s i)" and
    cls1: "''error'' \<in> set (field_classList (form_fields s1 i)) \<longleftrightarrow> \<not> ?v"
    by blast
  have rules1: "validation_rule T (form_fields s1 j) = validation_rule T (form_fields s j)" for j
    using frame1 rule1 by (cases "j = i") simp_all
  from Cons.prems tree1 have sub: "set fs \<subseteq> set (fields_of (form_tree s1))"
    by simp
  from Cons.IH [OF sub, of "if \<not> ?v then False else b"] obtain s' where
    rest: "validate_fields T fs (if \<not> ?v then False else b) s1
             = Inr ((if \<not> ?v then False else b) \<and>
                    (\<forall>k \<in> set fs. fst (validation_rule T (form_fields s1 k))), s')" and
    tree2: "fields_of (form_tree s') = fields_of (form_tree s1)" and
    sub2: "submitted s' = submitted s1" and
    frame2: "\<forall>j. j \<notin> set fs \<longrightarrow> form_fields s' j = form_fields s1 j" and
    rule2: "\<forall>j. validation_rule T (form_fields s' j) = validation_rule T (form_fields s1 j)" and
    cls2: "\<forall>k \<in> set fs. ''error'' \<in> set (field_classList (form_fields s' k))
              \<longleftrightarrow> \<not> fst (validation_rule T (form_fields s1 k))"
    by blast
  have run: "validate_fields T (i # fs) b s
      = Inr (b \<and> (\<forall>k \<in> set (i # fs). fst (validation_rule T (form_fields s k))), s')"
    using step rest by (auto simp: rules1)
  have cls: "''error'' \<in> set (field_classList (form_fields s' k))
              \<longleftrightarrow> \<not> fst (validation_rule T (form_fields s k))"
    if k: "k \<in> set (i # fs)" for k
  proof (cases "k \<in> set fs")
    case True
    with cls2 show ?thesis by (simp add: rules1)
  next
    case False
    with k have "k = i" by simp
    with False frame2 cls1 show ?thesis by simp
  qed
  have frame: "\<forall>j. j \<notin> set (i # fs) \<longrightarrow> form_fields s' j = form_fields s j"
    using frame1 frame2 by simp
  have rules: "\<forall>j. validation_rule T (form_fields s' j) = validation_rule T (form_fields s j)"
    using rule2 rules1 by simp
  from run tree1 tree2 sub1 sub2 frame rules cls show ?case
    by (intro exI [of _ s']) simp
qed

lemma fold_entries_other:
  "n \<notin> fst ` set es \<Longrightarrow> fold (\<lambda>(k, v) obj. obj(k \<mapsto> v)) es obj n = obj n"
  by (induction es arbitrary: obj) auto

lemma Object_fromEntries_last:
  "n \<notin> fst ` set ys \<Longrightarrow> Object_fromEntries (xs @ (n, v) # ys) n = Some v"
  by (simp add: Object_fromEntries_def fold_entries_other)

text \<open>C1, as stated: when all fields are valid, \<open>submitForm\<close> receives a mapping that
  contains every field's current value. It fails for a form whose only field has no
  \<open>name\<close>: the field is valid, \<open>FormData\<close> has no entry for it, and \<open>submitForm\<close> is called
  once with the empty object.\<close>

theorem submit_nameless_field_counterexample:
  "submit_listener [] nameless_form = (True, [0], []) \<and>
   field_name (form_fields nameless_form 0) = None \<and>
   field_value (form_fields nameless_form 0) = js ''hello'' \<and>
   fst (validation_rule ToNumber_digits (form_fields nameless_form 0)) \<and>
   \<not> isl (submit_callback ToNumber_digits [0] [] nameless_form) \<and>
   submitted (projr (submit_callback ToNumber_digits [0] [] nameless_form)) = [Map.empty]"
proof -
  have v: "validation_rule ToNumber_digits (input_element (js ''text'') (js ''hello'') None)
             = (True, js ''Minimum 0 characters required'')"
    by (simp add: rule_other input_element_def js_neq_email minLength_of_def) (simp add: js_def)
  then have f: "validateField ToNumber_digits (input_element (js ''text'') (js ''hello'') None) [FieldEl 0]
      = (True, input_element (js ''text'') (js ''hello'') None, [FieldEl 0])"
    by (simp add: validateField_def Let_def classList_remove_def input_element_def)
  have c: "submit_callback ToNumber_digits [0] [] nameless_form
      = Inr (nameless_form\<lparr>submitted := [Map.empty]\<rparr>)"
    by (simp add: submit_callback_def validate_in_form_def nameless_form_def f
          Object_fromEntries_def fun_eq_iff)
  show ?thesis
    unfolding c
    by (simp add: submit_listener_def nameless_form_def v) (simp add: input_element_def)
qed

text \<open>C1, amended. The callback of a submit event validates every field it captured, none
  skipped: each ends with the class \<open>error\<close> exactly when it is invalid. If at least one field
  is invalid, \<open>submitForm\<close> is not invoked; if all are valid, it is invoked exactly once, with
  \<open>Object.fromEntries\<close> of the \<open>FormData\<close> captured at the submit event. That object maps a
  name to the value of the last entry of that name: it holds a field's value when the entry
  list has an entry of the field's name with that value and no later entry of the same
  name.\<close>

theorem submit_all_or_nothing:
  "set fs \<subseteq> set (fields_of (form_tree s)) \<Longrightarrow>
     \<exists>s'. submit_callback T fs formData s = Inr s' \<and>
       (\<forall>i \<in> set fs. ''error'' \<in> set (field_classList (form_fields s' i))
           \<longleftrightarrow> \<not> fst (validation_rule T (form_fields s i))) \<and>
       ((\<exists>i \<in> set fs. \<not> fst (validation_rule T (form_fields s i)))
           \<longrightarrow> submitted s' = submitted s) \<and>
       ((\<forall>i \<in> set fs. fst (validation_rule T (form_fields s i)))
           \<longrightarrow> submitted s' = submitted s @ [Object_fromEntries formData]) \<and>
       (\<forall>i \<in> set fs. \<forall>n xs ys.
           field_name (form_fields s i) = Some n \<and>
           formData = xs @ (n, StringValue (field_value (form_fields s i))) # ys \<and>
           n \<notin> fst ` set ys
           \<longrightarrow> Object_fromEntries formData n = Some (StringValue (field_value (form_fields s i))))"
proof -
  assume sub: "set fs \<subseteq> set (fields_of (form_tree s))"
  let ?all = "\<forall>i \<in> set fs. fst (validation_rule T (form_fields s i))"
  from validate_fields_ok [OF sub, of T True] obtain s1 where
    run: "validate_fields T fs True s = Inr (?all, s1)" and
    sub1: "submitted s1 = submitted s" and
    cls: "\<forall>i \<in> set fs. ''error'' \<in> set (field_classList (form_fields s1 i))
              \<longleftrightarrow> \<not> fst (validation_rule T (form_fields s i))"
    by auto
  let ?s' = "if ?all then s1\<lparr>submitted := submitted s1 @ [Object_fromEntries formData]\<rparr> else s1"
  have a: "submit_callback T fs formData s = Inr ?s'"
    using run by (simp add: submit_callback_def)
  have b: "\<forall>i \<in> set fs. ''error'' \<in> set (field_classList (form_fields ?s' i))
           \<longleftrightarrow> \<not> fst (validation_rule T (form_fields s i))"
    using cls by simp
  have c: "(\<exists>i \<in> set fs. \<not> fst (validation_rule T (form_fields s i)))
           \<longrightarrow> submitted ?s' = submitted s"
    using sub1 by auto
  have d: "?all \<longrightarrow> submitted ?s' = submitted s @ [Object_fromEntries formData]"
    using sub1 by simp
  have e: "\<forall>i \<in> set fs. \<forall>n xs ys.
           field_name (form_fields s i) = Some n \<and>
           formData = xs @ (n, StringValue (field_value (form_fields s i))) # ys \<and>
           n \<notin> fst ` set ys
           \<longrightarrow> Object_fromEntries formData n = Some (StringValue (field_value (form_fields s i)))"
    by (auto simp: Object_fromEntries_last)
  from a b c d e show ?thesis
    by (intro exI [of _ ?s']) blast
qed

theorem submit_all_or_nothing_witness:
  "submitted (projr (submit_callback ToNumber_digits [0] [(js ''email'', StringValue (js ''a@b.co''))]
       (contact_form (js ''a@b.co''))))
     = [Object_fromEntries [(js ''email'', StringValue (js ''a@b.co''))]] \<and>
   Object_fromEntries [(js ''email'', StringValue (js ''a@b.co''))] (js ''email'')
     = Some (StringValue (js ''a@b.co'')) \<and>
   submitted (projr (submit_callback ToNumber_digits [0] [(js ''email'', StringValue (js ''not-an-email''))]
       (contact_form (js ''not-an-email'')))) = [] \<and>
   ''error'' \<in> set (field_classList (form_fields
       (projr (submit_callback ToNumber_digits [0] [(js ''email'', StringValue (js ''not-an-email''))]
          (contact_form (js ''not-an-email'')))) 0))"
proof -
  let ?ok = "contact_form (js ''a@b.co'')" and ?bad = "contact_form (js ''not-an-email'')"
  let ?d = "[(js ''email'', StringValue (js ''a@b.co''))]"
  let ?e = "[(js ''email'', StringValue (js ''not-an-email''))]"
  have sub: "set [0] \<subseteq> set (fields_of (form_tree (contact_form v)))" for v
    by (simp add: contact_form_def)
  have ok: "fst (validation_rule ToNumber_digits (form_fields ?ok 0))"
    by (simp add: contact_form_def rule_email input_element_def trim_a_b_co test_a_b_co)
  have bad: "\<not> fst (validation_rule ToNumber_digits (form_fields ?bad 0))"
    by (simp add: contact_form_def rule_email input_element_def trim_not_an_email test_not_an_email)
  have name: "field_name (form_fields ?ok 0) = Some (js ''email'')"
    and val: "field_value (form_fields ?ok 0) = js ''a@b.co''"
    and none: "submitted (contact_form v) = []" for v
    by (simp_all add: contact_form_def input_element_def)
  from submit_all_or_nothing [OF sub [of "js ''a@b.co''"], of ToNumber_digits ?d] ok name val
  obtain s1 where
    s1: "submit_callback ToNumber_digits [0] ?d ?ok = Inr s1"
      "submitted s1 = submitted ?ok @ [Object_fromEntries ?d]"
      "\<forall>n xs ys. Some (js ''email'') = Some n \<and> ?d = xs @ (n, StringValue (js ''a@b.co'')) # ys \<and>
          n \<notin> fst ` set ys \<longrightarrow> Object_fromEntries ?d n = Some (StringValue (js ''a@b.co''))"
    by auto
  from s1(3) have look: "Object_fromEntries ?d (js ''email'') = Some (StringValue (js ''a@b.co''))"
    by (metis append_Nil empty_iff image_empty list.set(1))
  from submit_all_or_nothing [OF sub [of "js ''not-an-email''"], of ToNumber_digits ?e] bad
  obtain s2 where
    s2: "submit_callback ToNumber_digits [0] ?e ?bad = Inr s2"
      "submitted s2 = submitted ?bad"
      "''error'' \<in> set (field_classList (form_fields s2 0))"
    by auto
  from s1 s2 look show ?thesis
    by (simp add: none)
qed

end
